theory Spec2Isabelle
  imports Main "HOL-Library.Word" "HOL-Library.Sublist"
begin

section \<open>Data model of the recorder widget\<close>

text \<open>
  The widget of \<^verbatim>\<open>src/components/VideoRecorder.tsx\<close> is embedded as a state record and
  one state transformer per handler. Browser objects the component talks to (blobs, media
  streams, \<^verbatim>\<open>MediaRecorder\<close> objects, interval timers) are part of the state; whatever the
  browser decides during one start attempt (is there a 2d context, does the audio graph
  throw, is the audio context suspended, which MIME types are supported, does the
  recorder constructor throw) is the \<open>platform\<close> argument of that attempt.
\<close>

type_synonym byte = "8 word"

text \<open>A \<^verbatim>\<open>Blob\<close>: its bytes and its \<^verbatim>\<open>type\<close> string; \<^verbatim>\<open>size\<close> is the number of bytes.\<close>

record blob =
  bytes :: "byte list"
  btype :: string

definition blob_size :: "blob \<Rightarrow> nat" where
  "blob_size b = length (bytes b)"

text \<open>The \<^verbatim>\<open>Blob\<close> constructor normalises the type it is given: a type with a character
  outside U+0020 to U+007E becomes the empty string, any other is converted to ASCII lower
  case.\<close>

definition ascii_lower :: "char \<Rightarrow> char" where
  "ascii_lower c =
     (case map_of (zip ''ABCDEFGHIJKLMNOPQRSTUVWXYZ'' ''abcdefghijklmnopqrstuvwxyz'') c of
        Some l \<Rightarrow> l
      | None \<Rightarrow> c)"

definition printable :: "char \<Rightarrow> bool" where
  "printable c = (32 \<le> (of_char c :: nat) \<and> (of_char c :: nat) \<le> 126)"

definition blob_type :: "string \<Rightarrow> string" where
  "blob_type t = (if list_all printable t then map ascii_lower t else [])"

text \<open>\<^verbatim>\<open>new Blob(parts, { type })\<close>: the parts' bytes in order, tagged with the normalised
  type.\<close>

definition newBlob :: "blob list \<Rightarrow> string \<Rightarrow> blob" where
  "newBlob parts t = \<lparr>bytes = concat (map bytes parts), btype = blob_type t\<rparr>"

text \<open>A media stream is the list of its tracks.\<close>

datatype track = VideoTrack | AudioTrack

type_synonym stream = "track list"

definition getVideoTracks :: "stream \<Rightarrow> track list" where
  "getVideoTracks st = filter (\<lambda>t. t = VideoTrack) st"

definition getAudioTracks :: "stream \<Rightarrow> track list" where
  "getAudioTracks st = filter (\<lambda>t. t = AudioTrack) st"

text \<open>A thrown JavaScript value: an \<^verbatim>\<open>Error\<close> object with its message, or anything else.\<close>

datatype thrown = Error string | NonError

text \<open>\<^verbatim>\<open>interface RecordingState\<close> (lines 4-9).\<close>

record RecordingState =
  isRecording :: bool
  isPaused :: bool
  recordedBlob :: "blob option"
  error :: "string option"

text \<open>A \<^verbatim>\<open>MediaRecorder\<close> object: its \<^verbatim>\<open>state\<close>, \<^verbatim>\<open>mimeType\<close> and \<^verbatim>\<open>stream\<close> attributes, and
  whether the browser has queued its \<^verbatim>\<open>stop\<close> event and not dispatched it yet.\<close>

datatype recorder_state = Inactive | Recording

record recorder =
  rstate :: recorder_state
  mimeType :: string
  rstream :: stream
  stopQueued :: bool

text \<open>How the inner \<^verbatim>\<open>try\<close> block (lines 55-81) goes:
  \<^item> \<open>AudioThrows e\<close>: it throws without having reached the \<^verbatim>\<open>await\<close> of line 61, or with
    a context that is not suspended;
  \<^item> \<open>AudioReady st\<close>: the context is not suspended and the block reaches \<^verbatim>\<open>dest.stream\<close>,
    which is \<open>st\<close>;
  \<^item> \<open>AudioSuspended r\<close>: the context is suspended, so the routine waits at line 61 and
    gives the event loop back; once \<^verbatim>\<open>resume()\<close> has settled the rest of the block throws
    (\<open>r = Inl e\<close>, a rejected \<^verbatim>\<open>resume()\<close> included) or reaches \<^verbatim>\<open>dest.stream\<close> (\<open>r = Inr st\<close>).\<close>

datatype audio_outcome =
    AudioThrows thrown
  | AudioReady stream
  | AudioSuspended "thrown + stream"

text \<open>What the browser answers during one run of \<^verbatim>\<open>startRecording\<close>:
  \<^item> \<open>getContext2d\<close>: \<^verbatim>\<open>canvas.getContext('2d')\<close> is not null (line 38);
  \<^item> \<open>audioGraph\<close>: how the inner \<^verbatim>\<open>try\<close> block goes;
  \<^item> \<open>isTypeSupported\<close>: \<^verbatim>\<open>MediaRecorder.isTypeSupported\<close>;
  \<^item> \<open>newMediaRecorder\<close>: the constructor of line 102, which throws or yields a recorder
    whose \<^verbatim>\<open>mimeType\<close> attribute is the returned string;
  \<^item> \<open>recorderStart\<close>: what \<^verbatim>\<open>start(100)\<close> of line 133 throws, if anything.\<close>

record platform =
  getContext2d :: bool
  audioGraph :: audio_outcome
  isTypeSupported :: "string \<Rightarrow> bool"
  newMediaRecorder :: "stream \<Rightarrow> string \<Rightarrow> thrown + string"
  recorderStart :: "thrown option"

text \<open>The component: its three \<^verbatim>\<open>useState\<close> cells, its refs, and the browser objects it
  created. \<open>recorderRef\<close> is the index of the current recorder in \<open>recorders\<close> (every
  \<^verbatim>\<open>MediaRecorder\<close> built so far); \<open>drawIntervalRef\<close> is an interval id, \<open>timers\<close> the ids of
  the intervals still running. \<open>recordedVideoRef\<close> is \<open>None\<close> while the result player is not
  mounted and otherwise holds the blob its \<^verbatim>\<open>src\<close> points to, if any. The source
  \<^verbatim>\<open><video>\<close> is rendered exactly when \<open>videoUrl\<close> is non-empty (line 246) and the canvas
  always (line 331), so \<^verbatim>\<open>videoRef.current\<close> is read off \<open>videoUrl\<close>. \<open>pendingStarts\<close> holds
  the runs of \<^verbatim>\<open>startRecording\<close> that wait at line 61: the browser of the attempt and what
  the rest of the inner \<^verbatim>\<open>try\<close> block will do.\<close>

record widget =
  recordingState :: RecordingState
  videoUrl :: string
  isVideoLoaded :: bool
  recorderRef :: "nat option"
  drawIntervalRef :: "nat option"
  recordedChunksRef :: "blob list"
  recordedVideoRef :: "blob option option"
  recorders :: "recorder list"
  timers :: "nat list"
  nextTimerId :: nat
  pendingStarts :: "(platform \<times> (thrown + stream)) list"

definition init :: widget where
  "init = \<lparr>recordingState =
             \<lparr>isRecording = False, isPaused = False, recordedBlob = None, error = None\<rparr>,
           videoUrl = [], isVideoLoaded = False, recorderRef = None, drawIntervalRef = None,
           recordedChunksRef = [], recordedVideoRef = None, recorders = [], timers = [],
           nextTimerId = 0, pendingStarts = []\<rparr>"

definition setRecordingState :: "(RecordingState \<Rightarrow> RecordingState) \<Rightarrow> widget \<Rightarrow> widget" where
  "setRecordingState f s = s\<lparr>recordingState := f (recordingState s)\<rparr>"

definition videoMounted :: "widget \<Rightarrow> bool" where
  "videoMounted s = (videoUrl s \<noteq> [])"

section \<open>Browser primitives\<close>

definition setInterval :: "widget \<Rightarrow> nat \<times> widget" where
  "setInterval s =
     (nextTimerId s, s\<lparr>timers := timers s @ [nextTimerId s], nextTimerId := Suc (nextTimerId s)\<rparr>)"

definition clearInterval :: "nat \<Rightarrow> widget \<Rightarrow> widget" where
  "clearInterval i s = s\<lparr>timers := removeAll i (timers s)\<rparr>"

text \<open>\<^verbatim>\<open>recorder.stop()\<close>: a recording recorder becomes inactive and its \<^verbatim>\<open>stop\<close> event is
  queued; on an inactive recorder nothing changes.\<close>

definition recorder_stop :: "nat \<Rightarrow> widget \<Rightarrow> widget" where
  "recorder_stop i s =
     (if i < length (recorders s) \<and> rstate (recorders s ! i) = Recording
      then s\<lparr>recorders := (recorders s)[i := (recorders s ! i)\<lparr>rstate := Inactive, stopQueued := True\<rparr>]\<rparr>
      else s)"

text \<open>\<^verbatim>\<open>String.prototype.includes\<close>: the argument occurs as a contiguous substring.\<close>

fun str_includes :: "string \<Rightarrow> string \<Rightarrow> bool" where
  "str_includes [] sub = (sub = [])"
| "str_includes (c # cs) sub = (prefix sub (c # cs) \<or> str_includes cs sub)"

text \<open>Decimal rendering of an integer, as a template literal renders \<^verbatim>\<open>Date.now()\<close>.\<close>

definition digit :: "nat \<Rightarrow> char" where
  "digit d = ''0123456789'' ! d"

function decimal :: "nat \<Rightarrow> string" where
  "decimal n = (if n < 10 then [digit n] else decimal (n div 10) @ [digit (n mod 10)])"
  by pat_completeness auto
termination
  by (relation "measure id") auto

declare decimal.simps [simp del]

definition show_int :: "int \<Rightarrow> string" where
  "show_int i = (if i < 0 then CHR ''-'' # decimal (nat (- i)) else decimal (nat i))"

section \<open>Handlers\<close>

text \<open>Lines 91-100: the option handed to the recorder constructor.\<close>

definition select_options :: "(string \<Rightarrow> bool) \<Rightarrow> string" where
  "select_options supported =
     (let options = ''video/webm;codecs=vp9,opus'';
          options = (if \<not> supported options then ''video/webm;codecs=vp8,opus'' else options);
          options = (if \<not> supported options then ''video/webm'' else options);
          options = (if \<not> supported options then ''video/mp4'' else options)
      in options)"

text \<open>Lines 53-85: the stream given to the recorder. A throw inside the inner \<^verbatim>\<open>try\<close> leaves
  \<open>combinedStream\<close> at the canvas stream.\<close>

definition combinedStream :: "stream \<Rightarrow> thrown + stream \<Rightarrow> stream" where
  "combinedStream videoStream audio =
     (case audio of
        Inl audioError \<Rightarrow> videoStream
      | Inr audioStream \<Rightarrow> getVideoTracks videoStream @ getAudioTracks audioStream)"

text \<open>\<^verbatim>\<open>canvas.captureStream(60)\<close>: one video track.\<close>

definition captureStream :: stream where
  "captureStream = [VideoTrack]"

text \<open>Lines 88-134, the rest of the outer \<^verbatim>\<open>try\<close> once the stream is there: \<open>Inl\<close> is a throw,
  with the state as it is at that moment.\<close>

definition record_body :: "platform \<Rightarrow> stream \<Rightarrow> widget \<Rightarrow> thrown \<times> widget + widget" where
  "record_body p cs s =
     (let s = s\<lparr>recordedChunksRef := []\<rparr>;
          options = select_options (isTypeSupported p)
      in case newMediaRecorder p cs options of
           Inl e \<Rightarrow> Inl (e, s)
         | Inr mt \<Rightarrow>
             let r = length (recorders s);
                 s = s\<lparr>recorders := recorders s @
                        [\<lparr>rstate = Inactive, mimeType = mt, rstream = cs, stopQueued = False\<rparr>],
                      recorderRef := Some r\<rparr>
             in case recorderStart p of
                  Some e \<Rightarrow> Inl (e, s)
                | None \<Rightarrow>
                    Inr (setRecordingState (\<lambda>prev. prev\<lparr>isRecording := True\<rparr>)
                           (s\<lparr>recorders := (recorders s)[r := (recorders s ! r)\<lparr>rstate := Recording\<rparr>]\<rparr>)))"

text \<open>Line 139: the message put into the error field.\<close>

definition error_message :: "thrown \<Rightarrow> string" where
  "error_message e = (case e of Error m \<Rightarrow> m | NonError \<Rightarrow> ''Recording failed'')"

text \<open>Lines 136-141: the \<^verbatim>\<open>catch\<close> block of the routine.\<close>

definition catch_start :: "thrown \<times> widget + widget \<Rightarrow> widget" where
  "catch_start r =
     (case r of
        Inl (e, s) \<Rightarrow> setRecordingState (\<lambda>prev. prev\<lparr>error := Some (error_message e)\<rparr>) s
      | Inr s \<Rightarrow> s)"

text \<open>The routine from line 88 on, inside its \<^verbatim>\<open>try\<close>.\<close>

definition finishRecording :: "platform \<Rightarrow> stream \<Rightarrow> widget \<Rightarrow> widget" where
  "finishRecording p cs s = catch_start (record_body p cs s)"

text \<open>\<^verbatim>\<open>startRecording\<close> (lines 29-142), from the call to its return or to the \<^verbatim>\<open>await\<close> of
  line 61. When the audio context is suspended the routine stops there, with the frame
  timer running, and its continuation is queued.\<close>

definition startRecording :: "platform \<Rightarrow> widget \<Rightarrow> widget" where
  "startRecording p s =
     (if \<not> videoMounted s then s
      else
        let s = setRecordingState (\<lambda>prev. prev\<lparr>error := None\<rparr>) s
        in if \<not> getContext2d p
           then catch_start (Inl (Error ''Canvas context not available'', s))
           else
             let (tid, s) = setInterval s;
                 s = s\<lparr>drawIntervalRef := Some tid\<rparr>;
                 videoStream = captureStream
             in case audioGraph p of
                  AudioThrows e \<Rightarrow> finishRecording p (combinedStream videoStream (Inl e)) s
                | AudioReady st \<Rightarrow> finishRecording p (combinedStream videoStream (Inr st)) s
                | AudioSuspended r \<Rightarrow> s\<lparr>pendingStarts := pendingStarts s @ [(p, r)]\<rparr>)"

text \<open>The continuation of a waiting run, once \<^verbatim>\<open>resume()\<close> has settled: the rest of the inner
  \<^verbatim>\<open>try\<close> block and then line 88 on. It reads no state cell again.\<close>

definition resumeRecording :: "platform \<Rightarrow> thrown + stream \<Rightarrow> widget \<Rightarrow> widget" where
  "resumeRecording p r s = finishRecording p (combinedStream captureStream r) s"

text \<open>\<^verbatim>\<open>ondataavailable\<close> (lines 104-108).\<close>

definition ondataavailable :: "blob \<Rightarrow> widget \<Rightarrow> widget" where
  "ondataavailable d s =
     (if blob_size d > 0 then s\<lparr>recordedChunksRef := recordedChunksRef s @ [d]\<rparr> else s)"

text \<open>Lines 111-114: cancel the frame timer if one is referenced, and drop the reference.\<close>

definition cancelDrawInterval :: "widget \<Rightarrow> widget" where
  "cancelDrawInterval s =
     (case drawIntervalRef s of
        Some i \<Rightarrow> (clearInterval i s)\<lparr>drawIntervalRef := None\<rparr>
      | None \<Rightarrow> s)"

text \<open>The object \<^verbatim>\<open>recorderRef.current\<close> points to, if any.\<close>

definition currentRecorder :: "widget \<Rightarrow> recorder option" where
  "currentRecorder s =
     (case recorderRef s of
        None \<Rightarrow> None
      | Some i \<Rightarrow> (if i < length (recorders s) then Some (recorders s ! i) else None))"

text \<open>Line 117: \<^verbatim>\<open>recorderRef.current?.mimeType || 'video/webm'\<close>.\<close>

definition stop_mimeType :: "widget \<Rightarrow> string" where
  "stop_mimeType s =
     (case currentRecorder s of
        None \<Rightarrow> ''video/webm''
      | Some r \<Rightarrow> (if mimeType r = [] then ''video/webm'' else mimeType r))"

text \<open>\<^verbatim>\<open>onstop\<close> (lines 110-131).\<close>

definition onstop :: "widget \<Rightarrow> widget" where
  "onstop s =
     (let s = cancelDrawInterval s;
          b = newBlob (recordedChunksRef s) (stop_mimeType s);
          s = setRecordingState (\<lambda>prev. prev\<lparr>recordedBlob := Some b, isRecording := False\<rparr>) s
      in case recordedVideoRef s of
           Some src \<Rightarrow> s\<lparr>recordedVideoRef := Some (Some b)\<rparr>
         | None \<Rightarrow> s)"

text \<open>\<^verbatim>\<open>stopRecording\<close> (lines 144-148).\<close>

definition stopRecording :: "widget \<Rightarrow> widget" where
  "stopRecording s =
     (case recorderRef s of
        Some i \<Rightarrow> (if isRecording (recordingState s) then recorder_stop i s else s)
      | None \<Rightarrow> s)"

text \<open>\<^verbatim>\<open>downloadRecording\<close> (lines 150-162): the file handed to the browser's save flow, name
  and content, when there is a result; the widget's state is not touched.\<close>

definition downloadRecording :: "int \<Rightarrow> widget \<Rightarrow> (string \<times> blob) option" where
  "downloadRecording now s =
     (case recordedBlob (recordingState s) of
        None \<Rightarrow> None
      | Some b \<Rightarrow>
          let extension = (if str_includes (btype b) ''mp4'' then ''mp4'' else ''webm'')
          in Some (''recorded-video-'' @ show_int now @ ''.'' @ extension, b))"

definition handleVideoLoad :: "widget \<Rightarrow> widget" where
  "handleVideoLoad s = s\<lparr>isVideoLoaded := True\<rparr>"

definition handleVideoError :: "widget \<Rightarrow> widget" where
  "handleVideoError s =
     (setRecordingState
        (\<lambda>prev. prev\<lparr>error := Some ''Failed to load video. Please check the URL.''\<rparr>) s)
       \<lparr>isVideoLoaded := False\<rparr>"

text \<open>Line 213, the URL field's \<^verbatim>\<open>onChange\<close>, and line 218, the Load Video button.\<close>

definition changeUrl :: "string \<Rightarrow> widget \<Rightarrow> widget" where
  "changeUrl u s = s\<lparr>videoUrl := u\<rparr>"

definition clickLoadVideo :: "widget \<Rightarrow> widget" where
  "clickLoadVideo s = s\<lparr>isVideoLoaded := False\<rparr>"

text \<open>The Start and Stop buttons with their \<^verbatim>\<open>disabled\<close> attributes (lines 267-283): a click
  on a disabled button calls no handler.\<close>

definition clickStart :: "platform \<Rightarrow> widget \<Rightarrow> widget" where
  "clickStart p s =
     (if \<not> isVideoLoaded s \<or> isRecording (recordingState s) then s else startRecording p s)"

definition clickStop :: "widget \<Rightarrow> widget" where
  "clickStop s = (if \<not> isRecording (recordingState s) then s else stopRecording s)"

section \<open>The widget as an event-driven machine\<close>

text \<open>State updates a handler requests are rendered after the handler has returned, so
  a handler reads the refs of the previous render. The render mounts the result player
  once a result blob exists (line 295), with no \<^verbatim>\<open>src\<close> of its own.\<close>

definition render :: "widget \<Rightarrow> widget" where
  "render s =
     (if recordedBlob (recordingState s) \<noteq> None \<and> recordedVideoRef s = None
      then s\<lparr>recordedVideoRef := Some None\<rparr> else s)"

text \<open>The events of the single event loop. Media events need the source element, recorder
  events a recorder that can still emit them, and \<open>ResumeSettled k\<close> a \<open>k\<close>-th waiting run
  of the start routine, which it takes out of the queue and continues.\<close>

datatype event =
    ChangeUrl string
  | ClickLoadVideo
  | VideoLoadedData
  | VideoError
  | ClickStart platform
  | ClickStop
  | DataAvailable nat blob
  | StopEvent nat
  | ResumeSettled nat

definition canEmitData :: "nat \<Rightarrow> widget \<Rightarrow> bool" where
  "canEmitData i s =
     (i < length (recorders s) \<and>
      (rstate (recorders s ! i) = Recording \<or> stopQueued (recorders s ! i)))"

definition canEmitStop :: "nat \<Rightarrow> widget \<Rightarrow> bool" where
  "canEmitStop i s = (i < length (recorders s) \<and> stopQueued (recorders s ! i))"

definition dispatchStop :: "nat \<Rightarrow> widget \<Rightarrow> widget" where
  "dispatchStop i s = s\<lparr>recorders := (recorders s)[i := (recorders s ! i)\<lparr>stopQueued := False\<rparr>]\<rparr>"

definition resumeSettled :: "nat \<Rightarrow> widget \<Rightarrow> widget" where
  "resumeSettled k s =
     (if k < length (pendingStarts s)
      then resumeRecording (fst (pendingStarts s ! k)) (snd (pendingStarts s ! k))
             (s\<lparr>pendingStarts := take k (pendingStarts s) @ drop (Suc k) (pendingStarts s)\<rparr>)
      else s)"

fun handle :: "event \<Rightarrow> widget \<Rightarrow> widget" where
  "handle (ChangeUrl u) s = changeUrl u s"
| "handle ClickLoadVideo s = clickLoadVideo s"
| "handle VideoLoadedData s = (if videoMounted s then handleVideoLoad s else s)"
| "handle VideoError s = (if videoMounted s then handleVideoError s else s)"
| "handle (ClickStart p) s = clickStart p s"
| "handle ClickStop s = clickStop s"
| "handle (DataAvailable i d) s = (if canEmitData i s then ondataavailable d s else s)"
| "handle (StopEvent i) s = (if canEmitStop i s then onstop (dispatchStop i s) else s)"
| "handle (ResumeSettled k) s = resumeSettled k s"

definition step :: "event \<Rightarrow> widget \<Rightarrow> widget" where
  "step e s = render (handle e s)"

fun run :: "event list \<Rightarrow> widget \<Rightarrow> widget" where
  "run [] s = s"
| "run (e # es) s = run es (step e s)"

text \<open>The number of recorders that are recording.\<close>

definition activeSessions :: "widget \<Rightarrow> nat" where
  "activeSessions s = length (filter (\<lambda>r. rstate r = Recording) (recorders s))"

section \<open>Notions used in the statements\<close>

text \<open>The priority order of the encodings.\<close>

definition priority :: "string list" where
  "priority = [''video/webm;codecs=vp9,opus'', ''video/webm;codecs=vp8,opus'',
               ''video/webm'', ''video/mp4'']"

text \<open>Reading a decimal numeral back.\<close>

definition digit_value :: "char \<Rightarrow> nat" where
  "digit_value c = of_char c - 48"

definition read_decimal :: "string \<Rightarrow> nat" where
  "read_decimal ds = foldl (\<lambda>acc c. 10 * acc + digit_value c) 0 ds"

text \<open>The stream a run of the start routine that does not wait hands to the recorder.\<close>

definition directStream :: "platform \<Rightarrow> stream option" where
  "directStream p =
     (case audioGraph p of
        AudioThrows e \<Rightarrow> Some (combinedStream captureStream (Inl e))
      | AudioReady st \<Rightarrow> Some (combinedStream captureStream (Inr st))
      | AudioSuspended r \<Rightarrow> None)"

text \<open>The pieces a start attempt is made of: the state once the error is cleared and the
  frame timer runs, and the \<^verbatim>\<open>catch\<close> block.\<close>

definition afterSetup :: "widget \<Rightarrow> widget" where
  "afterSetup s =
     s\<lparr>recordingState := (recordingState s)\<lparr>error := None\<rparr>,
       timers := timers s @ [nextTimerId s],
       nextTimerId := Suc (nextTimerId s),
       drawIntervalRef := Some (nextTimerId s)\<rparr>"

definition constructed :: "platform \<Rightarrow> stream \<Rightarrow> thrown + string" where
  "constructed p cs = newMediaRecorder p cs (select_options (isTypeSupported p))"

definition failWith :: "thrown \<Rightarrow> widget \<Rightarrow> widget" where
  "failWith e s = s\<lparr>recordingState := (recordingState s)\<lparr>error := Some (error_message e)\<rparr>\<rparr>"

definition newRecorder :: "stream \<Rightarrow> string \<Rightarrow> recorder_state \<Rightarrow> recorder" where
  "newRecorder cs mt st = \<lparr>rstate = st, mimeType = mt, rstream = cs, stopQueued = False\<rparr>"

text \<open>The blob the stop handler builds.\<close>

definition stopBlob :: "widget \<Rightarrow> blob" where
  "stopBlob s = newBlob (recordedChunksRef s) (stop_mimeType s)"

text \<open>Fragment invariant: no stored fragment is empty.\<close>

definition chunksInv :: "widget \<Rightarrow> bool" where
  "chunksInv s = (\<forall>c \<in> set (recordedChunksRef s). 0 < blob_size c)"

text \<open>The fragments the data handler keeps.\<close>

definition kept :: "blob list \<Rightarrow> blob list" where
  "kept ds = filter (\<lambda>d. 0 < blob_size d) ds"

text \<open>Browsers for the examples: one that supports plain WebM and delivers audio, one with
  no audio whose recorder constructor rejects every format, one like the first whose audio
  graph throws, and one like the first whose audio context is suspended at first.\<close>

definition webmBrowser :: platform where
  "webmBrowser =
     \<lparr>getContext2d = True, audioGraph = AudioReady [AudioTrack],
      isTypeSupported = (\<lambda>m. m = ''video/webm''),
      newMediaRecorder = (\<lambda>st m. Inr m), recorderStart = None\<rparr>"

definition noRecorderBrowser :: platform where
  "noRecorderBrowser =
     \<lparr>getContext2d = True, audioGraph = AudioThrows NonError,
      isTypeSupported = (\<lambda>m. False),
      newMediaRecorder = (\<lambda>st m. Inl (Error ''NotSupportedError'')), recorderStart = None\<rparr>"

definition silentBrowser :: platform where
  "silentBrowser = webmBrowser\<lparr>audioGraph := AudioThrows (Error ''InvalidStateError'')\<rparr>"

definition suspendedBrowser :: platform where
  "suspendedBrowser = webmBrowser\<lparr>audioGraph := AudioSuspended (Inr [AudioTrack])\<rparr>"

definition suspendedSilentBrowser :: platform where
  "suspendedSilentBrowser =
     webmBrowser\<lparr>audioGraph := AudioSuspended (Inl (Error ''InvalidStateError''))\<rparr>"

text \<open>A sample run: load a video, record one fragment, stop; and a second session up to
  the click on Stop.\<close>

definition sampleUrl :: string where
  "sampleUrl = ''https://example.com/sample.mp4''"

definition sampleFragment :: blob where
  "sampleFragment = \<lparr>bytes = [26, 69], btype = ''video/webm''\<rparr>"

definition untilLoaded :: "event list" where
  "untilLoaded = [ChangeUrl sampleUrl, VideoLoadedData]"

definition untilRecording :: "event list" where
  "untilRecording = untilLoaded @ [ClickStart webmBrowser]"

definition firstSession :: "event list" where
  "firstSession = untilRecording @ [DataAvailable 0 sampleFragment, ClickStop, StopEvent 0]"

definition secondSession :: "event list" where
  "secondSession = firstSession @ [ClickStart webmBrowser, DataAvailable 1 sampleFragment, ClickStop]"

text \<open>Two clicks on Start while the first run of the routine waits for the audio context,
  then both runs continue.\<close>

definition doubleStart :: "event list" where
  "doubleStart =
     untilLoaded @ [ClickStart suspendedBrowser, ClickStart suspendedBrowser,
                    ResumeSettled 0, ResumeSettled 0]"

section \<open>What one start attempt does\<close>

lemma finishRecording_constructor_throws:
  "constructed p cs = Inl e \<Longrightarrow>
   finishRecording p cs s = failWith e (s\<lparr>recordedChunksRef := []\<rparr>)"
  by (simp add: finishRecording_def record_body_def catch_start_def setRecordingState_def
      failWith_def constructed_def)

lemma finishRecording_start_throws:
  "constructed p cs = Inr mt \<Longrightarrow> recorderStart p = Some e \<Longrightarrow>
   finishRecording p cs s =
     failWith e (s\<lparr>recordedChunksRef := [],
                   recorders := recorders s @ [newRecorder cs mt Inactive],
                   recorderRef := Some (length (recorders s))\<rparr>)"
  by (simp add: finishRecording_def record_body_def catch_start_def setRecordingState_def
      failWith_def constructed_def newRecorder_def Let_def)

lemma finishRecording_succeeds:
  "constructed p cs = Inr mt \<Longrightarrow> recorderStart p = None \<Longrightarrow>
   finishRecording p cs s =
     s\<lparr>recordedChunksRef := [],
       recorders := recorders s @ [newRecorder cs mt Recording],
       recorderRef := Some (length (recorders s)),
       recordingState := (recordingState s)\<lparr>isRecording := True\<rparr>\<rparr>"
  by (simp add: finishRecording_def record_body_def catch_start_def setRecordingState_def
      constructed_def newRecorder_def Let_def)

lemma startRecording_unmounted:
  "\<not> videoMounted s \<Longrightarrow> startRecording p s = s"
  by (simp add: startRecording_def)

lemma startRecording_no_context:
  "videoMounted s \<Longrightarrow> \<not> getContext2d p \<Longrightarrow>
   startRecording p s = failWith (Error ''Canvas context not available'') s"
  by (simp add: startRecording_def catch_start_def setRecordingState_def failWith_def)

lemma startRecording_direct:
  "videoMounted s \<Longrightarrow> getContext2d p \<Longrightarrow> directStream p = Some cs \<Longrightarrow>
   startRecording p s = finishRecording p cs (afterSetup s)"
  by (cases "audioGraph p")
    (simp_all add: startRecording_def setRecordingState_def setInterval_def afterSetup_def
      directStream_def)

lemma startRecording_suspended:
  "videoMounted s \<Longrightarrow> getContext2d p \<Longrightarrow> audioGraph p = AudioSuspended r \<Longrightarrow>
   startRecording p s = (afterSetup s)\<lparr>pendingStarts := pendingStarts s @ [(p, r)]\<rparr>"
  by (simp add: startRecording_def setRecordingState_def setInterval_def afterSetup_def)

lemma directStream_None: "directStream p = None \<longleftrightarrow> (\<exists>r. audioGraph p = AudioSuspended r)"
  by (cases "audioGraph p") (simp_all add: directStream_def)

section \<open>What the stop handler does\<close>

lemma cancelDrawInterval_fields:
  "recorders (cancelDrawInterval s) = recorders s"
  "recorderRef (cancelDrawInterval s) = recorderRef s"
  "recordingState (cancelDrawInterval s) = recordingState s"
  "recordedChunksRef (cancelDrawInterval s) = recordedChunksRef s"
  "recordedVideoRef (cancelDrawInterval s) = recordedVideoRef s"
  "videoUrl (cancelDrawInterval s) = videoUrl s"
  "isVideoLoaded (cancelDrawInterval s) = isVideoLoaded s"
  "pendingStarts (cancelDrawInterval s) = pendingStarts s"
  "drawIntervalRef (cancelDrawInterval s) = None"
  by (simp_all add: cancelDrawInterval_def clearInterval_def split: option.splits)

lemma currentRecorder_cancel: "currentRecorder (cancelDrawInterval s) = currentRecorder s"
  by (simp add: currentRecorder_def cancelDrawInterval_fields split: option.splits)

lemma stop_mimeType_cancel: "stop_mimeType (cancelDrawInterval s) = stop_mimeType s"
  by (simp add: stop_mimeType_def currentRecorder_cancel)

lemma onstop_unfold:
  "onstop s =
     (cancelDrawInterval s)
       \<lparr>recordingState :=
          (recordingState s)\<lparr>recordedBlob := Some (stopBlob s), isRecording := False\<rparr>,
        recordedVideoRef :=
          (case recordedVideoRef s of None \<Rightarrow> None | Some src \<Rightarrow> Some (Some (stopBlob s)))\<rparr>"
  by (simp add: onstop_def Let_def setRecordingState_def cancelDrawInterval_fields
      stop_mimeType_cancel stopBlob_def split: option.splits)

lemma onstop_session:
  "recorders (onstop s) = recorders s" "recorderRef (onstop s) = recorderRef s"
  "isRecording (recordingState (onstop s)) = False"
  "recordedChunksRef (onstop s) = recordedChunksRef s"
  "isVideoLoaded (onstop s) = isVideoLoaded s"
  "pendingStarts (onstop s) = pendingStarts s"
  by (simp_all add: onstop_unfold cancelDrawInterval_fields)

lemma render_session:
  "recorders (render s) = recorders s" "recorderRef (render s) = recorderRef s"
  "recordingState (render s) = recordingState s"
  "recordedChunksRef (render s) = recordedChunksRef s"
  "isVideoLoaded (render s) = isVideoLoaded s"
  "pendingStarts (render s) = pendingStarts s"
  by (simp_all add: render_def)

lemmas handler_defs =
  changeUrl_def clickLoadVideo_def handleVideoLoad_def handleVideoError_def
  setRecordingState_def

lemma run_append: "run (xs @ ys) s = run ys (run xs s)"
  by (induction xs arbitrary: s) simp_all

section \<open>Evaluating the sample runs\<close>

lemmas eval_defs =
  step_def init_def render_def clickStart_def clickStop_def startRecording_def
  finishRecording_def record_body_def catch_start_def resumeRecording_def resumeSettled_def
  setInterval_def setRecordingState_def videoMounted_def changeUrl_def handleVideoLoad_def
  handleVideoError_def clickLoadVideo_def Let_def webmBrowser_def noRecorderBrowser_def
  silentBrowser_def suspendedBrowser_def suspendedSilentBrowser_def
  select_options_def combinedStream_def captureStream_def getVideoTracks_def getAudioTracks_def
  error_message_def onstop_def cancelDrawInterval_def clearInterval_def stop_mimeType_def
  currentRecorder_def newBlob_def blob_type_def printable_def ascii_lower_def
  stopRecording_def recorder_stop_def canEmitData_def
  canEmitStop_def dispatchStop_def ondataavailable_def blob_size_def
  sampleUrl_def sampleFragment_def untilLoaded_def untilRecording_def firstSession_def
  secondSession_def doubleStart_def

lemma untilLoaded_state:
  "run untilLoaded init = init\<lparr>videoUrl := sampleUrl, isVideoLoaded := True\<rparr>"
  by (simp add: eval_defs)

lemma untilRecording_flag: "isRecording (recordingState (run untilRecording init))"
  by (simp add: eval_defs)

lemma firstSession_blob:
  "recordedBlob (recordingState (run firstSession init)) = Some sampleFragment"
  by (simp add: eval_defs)

lemma firstSession_idle: "\<not> isRecording (recordingState (run firstSession init))"
  by (simp add: eval_defs)

lemma failedStart_state:
  "run (untilLoaded @ [ClickStart noRecorderBrowser]) init =
   init\<lparr>videoUrl := sampleUrl, isVideoLoaded := True,
        recordingState := (recordingState init)\<lparr>error := Some ''NotSupportedError''\<rparr>,
        timers := [0], nextTimerId := 1, drawIntervalRef := Some 0\<rparr>"
  by (simp add: eval_defs)

lemma blob_type_webm: "blob_type ''video/webm'' = ''video/webm''"
  by (simp add: blob_type_def printable_def ascii_lower_def)

lemma blob_type_upper: "blob_type ''Video/MP4'' = ''video/mp4''"
  by (simp add: blob_type_def printable_def ascii_lower_def)

section \<open>The fragment list\<close>

lemma finishRecording_chunks: "recordedChunksRef (finishRecording p cs s) = []"
proof (cases "constructed p cs")
  case (Inl e)
  then show ?thesis by (simp add: finishRecording_constructor_throws failWith_def)
next
  case (Inr mt)
  then show ?thesis
    by (cases "recorderStart p")
      (simp_all add: finishRecording_succeeds finishRecording_start_throws failWith_def)
qed

lemma startRecording_chunks:
  "recordedChunksRef (startRecording p s) = recordedChunksRef s \<or>
   recordedChunksRef (startRecording p s) = []"
proof (cases "videoMounted s \<and> getContext2d p")
  case False
  then consider "\<not> videoMounted s" | "videoMounted s" "\<not> getContext2d p" by blast
  then show ?thesis
  proof cases
    case 1
    then show ?thesis by (simp add: startRecording_unmounted)
  next
    case 2
    then show ?thesis by (simp add: startRecording_no_context failWith_def)
  qed
next
  case True
  show ?thesis
  proof (cases "directStream p")
    case None
    then obtain r where "audioGraph p = AudioSuspended r" by (auto simp: directStream_None)
    with True show ?thesis by (simp add: startRecording_suspended afterSetup_def)
  next
    case (Some cs)
    with True show ?thesis by (simp add: startRecording_direct finishRecording_chunks)
  qed
qed

lemma resumeSettled_chunks:
  "recordedChunksRef (resumeSettled k s) = recordedChunksRef s \<or>
   recordedChunksRef (resumeSettled k s) = []"
  by (simp add: resumeSettled_def resumeRecording_def finishRecording_chunks)

lemma chunksInv_handle:
  assumes "chunksInv s"
  shows "chunksInv (handle e s)"
proof (cases e)
  case (ClickStart p)
  with assms startRecording_chunks [of p s] show ?thesis
    by (auto simp: chunksInv_def clickStart_def)
next
  case ClickStop
  with assms show ?thesis
    by (auto simp: chunksInv_def clickStop_def stopRecording_def recorder_stop_def split: option.splits)
next
  case (StopEvent i)
  with assms show ?thesis by (simp add: chunksInv_def onstop_session dispatchStop_def)
next
  case (DataAvailable i d)
  with assms show ?thesis by (auto simp: chunksInv_def ondataavailable_def)
next
  case (ResumeSettled k)
  with assms resumeSettled_chunks [of k s] show ?thesis
    by (auto simp: chunksInv_def)
qed (use assms in \<open>simp_all add: chunksInv_def handler_defs\<close>)

lemma chunksInv_run: "chunksInv s \<Longrightarrow> chunksInv (run es s)"
proof (induction es arbitrary: s)
  case Nil
  then show ?case by simp
next
  case (Cons e es)
  from Cons.prems have "chunksInv (step e s)"
    using chunksInv_handle [of s e] by (simp add: step_def chunksInv_def render_session)
  with Cons.IH show ?case by simp
qed

lemma chunksInv_init: "chunksInv init"
  by (simp add: chunksInv_def init_def)

section \<open>A session from its start to its stop event\<close>

lemma data_step:
  assumes "canEmitData n s"
  shows "recordedChunksRef (step (DataAvailable n d) s) = recordedChunksRef s @ kept [d]"
    and "recorders (step (DataAvailable n d) s) = recorders s"
    and "recorderRef (step (DataAvailable n d) s) = recorderRef s"
    and "recordingState (step (DataAvailable n d) s) = recordingState s"
  using assms by (simp_all add: step_def render_session ondataavailable_def kept_def)

lemma data_run:
  assumes "canEmitData n s"
  shows "recordedChunksRef (run (map (DataAvailable n) ds) s) = recordedChunksRef s @ kept ds \<and>
         recorders (run (map (DataAvailable n) ds) s) = recorders s \<and>
         recorderRef (run (map (DataAvailable n) ds) s) = recorderRef s \<and>
         recordingState (run (map (DataAvailable n) ds) s) = recordingState s"
  using assms
proof (induction ds arbitrary: s)
  case Nil
  then show ?case by (simp add: kept_def)
next
  case (Cons d ds)
  note st = data_step [OF Cons.prems, of d]
  from Cons.prems st(2) have "canEmitData n (step (DataAvailable n d) s)"
    by (simp add: canEmitData_def)
  from Cons.IH [OF this] st show ?case by (simp add: kept_def)
qed

lemma stop_step:
  assumes "isRecording (recordingState s)" "recorderRef s = Some n" "n < length (recorders s)"
    "rstate (recorders s ! n) = Recording"
  shows "recorders (step ClickStop s) =
           (recorders s)[n := (recorders s ! n)\<lparr>rstate := Inactive, stopQueued := True\<rparr>]"
    and "recordedChunksRef (step ClickStop s) = recordedChunksRef s"
    and "recorderRef (step ClickStop s) = recorderRef s"
    and "recordingState (step ClickStop s) = recordingState s"
  using assms
  by (simp_all add: step_def render_session clickStop_def stopRecording_def recorder_stop_def)

lemma stop_event_step:
  assumes "recorderRef s = Some n" "n < length (recorders s)" "stopQueued (recorders s ! n)"
  shows "recordingState (step (StopEvent n) s) =
     (recordingState s)
       \<lparr>recordedBlob :=
          Some \<lparr>bytes = concat (map bytes (recordedChunksRef s)),
                btype = blob_type (if mimeType (recorders s ! n) = [] then ''video/webm''
                                   else mimeType (recorders s ! n))\<rparr>,
        isRecording := False\<rparr>"
proof -
  let ?d = "dispatchStop n s"
  from assms have can: "canEmitStop n s" by (simp add: canEmitStop_def)
  from assms have "currentRecorder ?d = Some ((recorders s ! n)\<lparr>stopQueued := False\<rparr>)"
    by (simp add: currentRecorder_def dispatchStop_def)
  then have "stop_mimeType ?d =
      (if mimeType (recorders s ! n) = [] then ''video/webm'' else mimeType (recorders s ! n))"
    by (simp add: stop_mimeType_def)
  moreover have "recordedChunksRef ?d = recordedChunksRef s" by (simp add: dispatchStop_def)
  ultimately have "stopBlob ?d =
      \<lparr>bytes = concat (map bytes (recordedChunksRef s)),
       btype = blob_type (if mimeType (recorders s ! n) = [] then ''video/webm''
                          else mimeType (recorders s ! n))\<rparr>"
    by (simp add: stopBlob_def newBlob_def)
  with can show ?thesis
    by (simp add: step_def render_session onstop_unfold dispatchStop_def)
qed

lemma session_completes:
  assumes rec: "isRecording (recordingState s)"
    and ref: "recorderRef s = Some n"
    and n: "n < length (recorders s)"
    and st: "rstate (recorders s ! n) = Recording"
  shows "recordingState
           (run (map (DataAvailable n) ds @ ClickStop # map (DataAvailable n) ds' @ [StopEvent n]) s) =
         (recordingState s)
           \<lparr>recordedBlob :=
              Some \<lparr>bytes = concat (map bytes (recordedChunksRef s @ kept (ds @ ds'))),
                    btype = blob_type (if mimeType (recorders s ! n) = [] then ''video/webm''
                                       else mimeType (recorders s ! n))\<rparr>,
            isRecording := False\<rparr>"
proof -
  let ?s2 = "run (map (DataAvailable n) ds) s"
  let ?s3 = "step ClickStop ?s2"
  let ?s4 = "run (map (DataAvailable n) ds') ?s3"
  from n st have "canEmitData n s" by (simp add: canEmitData_def)
  from data_run [OF this, of ds]
  have s2: "recordedChunksRef ?s2 = recordedChunksRef s @ kept ds" "recorders ?s2 = recorders s"
    "recorderRef ?s2 = recorderRef s" "recordingState ?s2 = recordingState s"
    by simp_all
  from rec ref n st s2
  have pre: "isRecording (recordingState ?s2)" "recorderRef ?s2 = Some n"
    "n < length (recorders ?s2)" "rstate (recorders ?s2 ! n) = Recording"
    by simp_all
  note s3 = stop_step [OF pre]
  from s3(1) n s2(2) have q3: "n < length (recorders ?s3)" "stopQueued (recorders ?s3 ! n)"
    "mimeType (recorders ?s3 ! n) = mimeType (recorders s ! n)"
    by simp_all
  then have "canEmitData n ?s3" by (simp add: canEmitData_def)
  from data_run [OF this, of ds']
  have s4: "recordedChunksRef ?s4 = recordedChunksRef ?s3 @ kept ds'" "recorders ?s4 = recorders ?s3"
    "recorderRef ?s4 = recorderRef ?s3" "recordingState ?s4 = recordingState ?s3"
    by simp_all
  from s4 s3 s2 ref q3
  have pre4: "recorderRef ?s4 = Some n" "n < length (recorders ?s4)" "stopQueued (recorders ?s4 ! n)"
    by simp_all
  have chunks: "recordedChunksRef ?s4 = recordedChunksRef s @ kept (ds @ ds')"
    using s4(1) s3(2) s2(1) by (simp add: kept_def)
  have mt: "mimeType (recorders ?s4 ! n) = mimeType (recorders s ! n)"
    using s4(2) q3(3) by simp
  have rs: "recordingState ?s4 = recordingState s"
    using s4(4) s3(4) s2(4) by simp
  have "run (map (DataAvailable n) ds @ ClickStop # map (DataAvailable n) ds' @ [StopEvent n]) s =
      step (StopEvent n) ?s4"
    by (simp add: run_append)
  with stop_event_step [OF pre4] chunks mt rs show ?thesis by simp
qed

section \<open>While the loaded flag is false\<close>



section \<open>Encoding selection and the audio fallback\<close>

lemma select_options_first:
  "find supported priority = Some m \<Longrightarrow> select_options supported = m"
  by (auto simp: priority_def select_options_def Let_def split: if_splits)

lemma select_options_none:
  "find supported priority = None \<Longrightarrow> select_options supported = ''video/mp4''"
  by (auto simp: priority_def select_options_def Let_def split: if_splits)

lemma finishRecording_built:
  assumes "constructed p cs = Inr mt"
  shows "recorderRef (finishRecording p cs s) = Some (length (recorders s)) \<and>
         mimeType (recorders (finishRecording p cs s) ! length (recorders s)) = mt \<and>
         rstream (recorders (finishRecording p cs s) ! length (recorders s)) = cs"
proof (cases "recorderStart p")
  case None
  from finishRecording_succeeds [OF assms None] show ?thesis
    by (simp add: newRecorder_def)
next
  case (Some e)
  from finishRecording_start_throws [OF assms Some] show ?thesis
    by (simp add: newRecorder_def failWith_def)
qed

lemma audio_failure_same_resume:
  "resumeRecording p (Inl t) s = resumeRecording p (Inr []) s"
  by (simp add: resumeRecording_def combinedStream_def captureStream_def getVideoTracks_def
      getAudioTracks_def)

lemma finishRecording_audio_irrelevant:
  "finishRecording (p\<lparr>audioGraph := a\<rparr>) cs s = finishRecording p cs s"
proof -
  let ?q = "p\<lparr>audioGraph := a\<rparr>"
  have c: "constructed ?q cs = constructed p cs" by (simp add: constructed_def)
  show ?thesis
  proof (cases "constructed p cs")
    case (Inl e)
    with c show ?thesis by (simp add: finishRecording_constructor_throws)
  next
    case (Inr mt)
    with c show ?thesis
      by (cases "recorderStart p")
        (simp_all add: finishRecording_succeeds finishRecording_start_throws)
  qed
qed

lemma audio_failure_same_start:
  assumes "audioGraph p = AudioThrows t"
  shows "startRecording p s = startRecording (p\<lparr>audioGraph := AudioReady []\<rparr>) s"
proof -
  let ?q = "p\<lparr>audioGraph := AudioReady []\<rparr>"
  have d: "directStream p = Some [VideoTrack]" "directStream ?q = Some [VideoTrack]"
    using assms
    by (simp_all add: directStream_def combinedStream_def captureStream_def getVideoTracks_def
        getAudioTracks_def)
  show ?thesis
  proof (cases "videoMounted s")
    case False
    then show ?thesis by (simp add: startRecording_unmounted)
  next
    case m: True
    show ?thesis
    proof (cases "getContext2d p")
      case False
      with m show ?thesis by (simp add: startRecording_no_context)
    next
      case True
      with m d show ?thesis
        by (simp add: startRecording_direct finishRecording_audio_irrelevant)
    qed
  qed
qed

lemma video_only_session:
  assumes c: "constructed p [VideoTrack] = Inr mt" and "recorderStart p = None"
  shows "isRecording (recordingState (finishRecording p [VideoTrack] s)) \<and>
         error (recordingState (finishRecording p [VideoTrack] s)) = error (recordingState s) \<and>
         currentRecorder (finishRecording p [VideoTrack] s) =
           Some \<lparr>rstate = Recording, mimeType = mt, rstream = [VideoTrack], stopQueued = False\<rparr> \<and>
         recordingState
           (run (map (DataAvailable (length (recorders s))) ds @ ClickStop #
                 map (DataAvailable (length (recorders s))) ds' @ [StopEvent (length (recorders s))])
              (finishRecording p [VideoTrack] s)) =
         (recordingState s)
           \<lparr>isRecording := False,
            recordedBlob :=
              Some \<lparr>bytes = concat (map bytes (filter (\<lambda>d. 0 < length (bytes d)) (ds @ ds'))),
                    btype = blob_type (if mt = [] then ''video/webm'' else mt)\<rparr>\<rparr>"
proof -
  let ?n = "length (recorders s)"
  let ?s1 = "finishRecording p [VideoTrack] s"
  from finishRecording_succeeds [OF assms]
  have s1: "?s1 =
     s\<lparr>recordedChunksRef := [],
       recorders := recorders s @ [newRecorder [VideoTrack] mt Recording],
       recorderRef := Some ?n,
       recordingState := (recordingState s)\<lparr>isRecording := True\<rparr>\<rparr>" .
  then have rec: "isRecording (recordingState ?s1)"
    and err: "error (recordingState ?s1) = error (recordingState s)"
    by simp_all
  from s1 have ref: "recorderRef ?s1 = Some ?n" and n: "?n < length (recorders ?s1)"
    and r: "recorders ?s1 ! ?n = newRecorder [VideoTrack] mt Recording"
    and ch: "recordedChunksRef ?s1 = []"
    and rs: "recordingState ?s1 = (recordingState s)\<lparr>isRecording := True\<rparr>"
    by simp_all
  from ref n r have cur: "currentRecorder ?s1 =
      Some \<lparr>rstate = Recording, mimeType = mt, rstream = [VideoTrack], stopQueued = False\<rparr>"
    by (simp add: currentRecorder_def newRecorder_def)
  from r have st: "rstate (recorders ?s1 ! ?n) = Recording"
    and mt: "mimeType (recorders ?s1 ! ?n) = mt"
    by (simp_all add: newRecorder_def)
  from session_completes [OF rec ref n st, of ds ds'] ch mt rs
  have "recordingState
           (run (map (DataAvailable ?n) ds @ ClickStop # map (DataAvailable ?n) ds' @ [StopEvent ?n]) ?s1) =
         (recordingState s)
           \<lparr>isRecording := False,
            recordedBlob :=
              Some \<lparr>bytes = concat (map bytes (filter (\<lambda>d. 0 < length (bytes d)) (ds @ ds'))),
                    btype = blob_type (if mt = [] then ''video/webm'' else mt)\<rparr>\<rparr>"
    by (simp add: kept_def blob_size_def)
  with rec err cur show ?thesis by simp
qed

section \<open>Before the first stop event\<close>

lemma finishRecording_result:
  "recordedBlob (recordingState (finishRecording p cs s)) = recordedBlob (recordingState s) \<and>
   recordedVideoRef (finishRecording p cs s) = recordedVideoRef s"
proof (cases "constructed p cs")
  case (Inl e)
  then show ?thesis by (simp add: finishRecording_constructor_throws failWith_def)
next
  case (Inr mt)
  then show ?thesis
    by (cases "recorderStart p")
      (simp_all add: finishRecording_succeeds finishRecording_start_throws failWith_def)
qed

lemma startRecording_result:
  "recordedBlob (recordingState (startRecording p s)) = recordedBlob (recordingState s) \<and>
   recordedVideoRef (startRecording p s) = recordedVideoRef s"
proof (cases "videoMounted s \<and> getContext2d p")
  case False
  then consider "\<not> videoMounted s" | "videoMounted s" "\<not> getContext2d p" by blast
  then show ?thesis
  proof cases
    case 1
    then show ?thesis by (simp add: startRecording_unmounted)
  next
    case 2
    then show ?thesis by (simp add: startRecording_no_context failWith_def)
  qed
next
  case True
  show ?thesis
  proof (cases "directStream p")
    case None
    then obtain r where "audioGraph p = AudioSuspended r" by (auto simp: directStream_None)
    with True show ?thesis by (simp add: startRecording_suspended afterSetup_def)
  next
    case (Some cs)
    with True finishRecording_result [of p cs "afterSetup s"] show ?thesis
      by (simp add: startRecording_direct afterSetup_def)
  qed
qed

lemma no_result_step:
  assumes "recordedBlob (recordingState s) = None" "recordedVideoRef s = None"
    "\<forall>i. e \<noteq> StopEvent i"
  shows "recordedBlob (recordingState (step e s)) = None \<and> recordedVideoRef (step e s) = None"
proof -
  have "recordedBlob (recordingState (handle e s)) = None \<and> recordedVideoRef (handle e s) = None"
  proof (cases e)
    case (ClickStart p)
    with assms startRecording_result [of p s] show ?thesis by (simp add: clickStart_def)
  next
    case ClickStop
    with assms show ?thesis
      by (simp add: clickStop_def stopRecording_def recorder_stop_def split: option.splits)
  next
    case (DataAvailable i d)
    with assms show ?thesis by (simp add: ondataavailable_def)
  next
    case (StopEvent i)
    with assms show ?thesis by simp
  next
    case (ResumeSettled k)
    with assms finishRecording_result show ?thesis
      by (simp add: resumeSettled_def resumeRecording_def)
  qed (use assms in \<open>simp_all add: handler_defs\<close>)
  then show ?thesis by (simp add: step_def render_def)
qed

lemma no_result_run:
  assumes "recordedBlob (recordingState s) = None" "recordedVideoRef s = None"
    "\<forall>e \<in> set evs. \<forall>i. e \<noteq> StopEvent i"
  shows "recordedBlob (recordingState (run evs s)) = None \<and> recordedVideoRef (run evs s) = None"
  using assms
proof (induction evs arbitrary: s)
  case Nil
  then show ?case by simp
next
  case (Cons e evs)
  from Cons.prems(3) have e: "\<forall>i. e \<noteq> StopEvent i"
    and rest: "\<forall>e \<in> set evs. \<forall>i. e \<noteq> StopEvent i"
    by simp_all
  from no_result_step [OF Cons.prems(1,2) e] Cons.IH rest show ?case by simp
qed

text \<open>Whatever happens before the first stop event, the handler of that event finds no
  result player and sets no source.\<close>

lemma first_stop_skips_player:
  assumes "\<forall>e \<in> set evs. \<forall>i. e \<noteq> StopEvent i"
  shows "recordedVideoRef (onstop (dispatchStop i (run evs init))) = None"
proof -
  from no_result_run [OF _ _ assms, of init]
  have "recordedVideoRef (run evs init) = None" by (simp add: init_def)
  then show ?thesis by (simp add: onstop_unfold cancelDrawInterval_fields dispatchStop_def)
qed

text \<open>A click on Start while the button is disabled changes nothing.\<close>

lemma clickStart_disabled:
  "\<not> isVideoLoaded s \<or> isRecording (recordingState s) \<Longrightarrow> clickStart p s = s"
  by (auto simp: clickStart_def)

section \<open>Strings\<close>

lemma str_includes_iff: "str_includes s sub \<longleftrightarrow> (\<exists>pre post. s = pre @ sub @ post)"
proof (induction s)
  case Nil
  then show ?case by auto
next
  case (Cons c cs)
  show ?case
  proof
    assume "str_includes (c # cs) sub"
    then consider "prefix sub (c # cs)" | "str_includes cs sub" by auto
    then show "\<exists>pre post. c # cs = pre @ sub @ post"
    proof cases
      case 1
      then obtain post where "c # cs = sub @ post" by (auto simp: prefix_def)
      then have "c # cs = [] @ sub @ post" by simp
      then show ?thesis by blast
    next
      case 2
      with Cons.IH obtain pre post where "cs = pre @ sub @ post" by auto
      then have "c # cs = (c # pre) @ sub @ post" by simp
      then show ?thesis by blast
    qed
  next
    assume "\<exists>pre post. c # cs = pre @ sub @ post"
    then obtain pre post where e: "c # cs = pre @ sub @ post" by auto
    show "str_includes (c # cs) sub"
    proof (cases pre)
      case Nil
      with e have "prefix sub (c # cs)" by (simp add: prefix_def)
      then show ?thesis by simp
    next
      case (Cons a pre')
      with e have "cs = pre' @ sub @ post" by simp
      with Cons.IH have "str_includes cs sub" by blast
      then show ?thesis by simp
    qed
  qed
qed

lemma digit_value_digit:
  assumes "d < 10"
  shows "digit_value (digit d) = d"
proof -
  from assms have "d \<in> {0, 1, 2, 3, 4, 5, 6, 7, 8, 9}" by auto
  then show ?thesis by (auto simp: digit_value_def digit_def)
qed

lemma read_decimal_snoc: "read_decimal (ds @ [c]) = 10 * read_decimal ds + digit_value c"
  by (simp add: read_decimal_def)

lemma read_decimal_decimal: "read_decimal (decimal n) = n"
proof (induction n rule: decimal.induct)
  case (1 n)
  show ?case
  proof (cases "n < 10")
    case True
    then show ?thesis
      by (simp add: decimal.simps [of n] read_decimal_def digit_value_digit)
  next
    case False
    with 1 have "read_decimal (decimal (n div 10)) = n div 10" by simp
    with False show ?thesis
      by (simp add: decimal.simps [of n] read_decimal_snoc digit_value_digit)
  qed
qed
section \<open>The claims\<close>

text \<open>
  C5. For every result blob, the download action produces a file named
  \<^verbatim>\<open>recorded-video-<epoch-millis>.<ext>\<close> whose content is that blob: the name is the fixed
  prefix, the decimal numeral of the clock value (which reads back as that value when the
  clock is not negative), a dot and the extension; the extension is \<^verbatim>\<open>mp4\<close> if and only if
  \<^verbatim>\<open>mp4\<close> occurs as a substring of the blob's MIME type, and \<^verbatim>\<open>webm\<close> otherwise.
\<close>

theorem download_filename:
  assumes "recordedBlob (recordingState s) = Some b"
  shows "\<exists>ext. downloadRecording now s =
             Some (''recorded-video-'' @ show_int now @ ''.'' @ ext, b) \<and>
           (ext = ''mp4'' \<longleftrightarrow> (\<exists>pre post. btype b = pre @ ''mp4'' @ post)) \<and>
           (ext \<noteq> ''mp4'' \<longrightarrow> ext = ''webm'') \<and>
           (0 \<le> now \<longrightarrow> int (read_decimal (show_int now)) = now)"
proof (cases "str_includes (btype b) ''mp4''")
  case True
  with assms have "downloadRecording now s =
      Some (''recorded-video-'' @ show_int now @ ''.'' @ ''mp4'', b)"
    by (simp add: downloadRecording_def)
  moreover from True have "\<exists>pre post. btype b = pre @ ''mp4'' @ post"
    by (simp only: str_includes_iff)
  moreover have "0 \<le> now \<longrightarrow> int (read_decimal (show_int now)) = now"
    by (simp add: show_int_def read_decimal_decimal)
  ultimately show ?thesis by blast
next
  case False
  with assms have "downloadRecording now s =
      Some (''recorded-video-'' @ show_int now @ ''.'' @ ''webm'', b)"
    by (simp add: downloadRecording_def)
  moreover from False have "\<not> (\<exists>pre post. btype b = pre @ ''mp4'' @ post)"
    unfolding str_includes_iff by simp
  moreover have "0 \<le> now \<longrightarrow> int (read_decimal (show_int now)) = now"
    by (simp add: show_int_def read_decimal_decimal)
  moreover have "''webm'' \<noteq> ''mp4''" by simp
  ultimately show ?thesis by blast
qed

text \<open>The sample run's result, downloaded at clock value 1700000000123.\<close>

theorem download_filename_witness:
  "downloadRecording 1700000000123 (run firstSession init) =
   Some (''recorded-video-1700000000123.webm'', sampleFragment)"
proof -
  from download_filename [OF firstSession_blob, of 1700000000123]
  obtain ext where e: "downloadRecording 1700000000123 (run firstSession init) =
        Some (''recorded-video-'' @ show_int 1700000000123 @ ''.'' @ ext, sampleFragment)"
      "ext = ''mp4'' \<longleftrightarrow> (\<exists>pre post. btype sampleFragment = pre @ ''mp4'' @ post)"
      "ext \<noteq> ''mp4'' \<longrightarrow> ext = ''webm''"
    by blast
  have "\<not> str_includes (btype sampleFragment) ''mp4''" by (simp add: sampleFragment_def)
  then have "\<not> (\<exists>pre post. btype sampleFragment = pre @ ''mp4'' @ post)"
    unfolding str_includes_iff by simp
  with e(2,3) have "ext = ''webm''" by blast
  moreover have "show_int 1700000000123 = ''1700000000123''"
    by (simp add: show_int_def decimal.simps digit_def)
  ultimately show ?thesis using e(1) by simp
qed

text \<open>
  C7. In every widget state where no recording is active (\<open>isRecording\<close> is false, or there
  is no recorder), Stop changes no state: neither the handler nor a click on the button.
\<close>

theorem stop_noop:
  assumes "\<not> isRecording (recordingState s) \<or> recorderRef s = None"
  shows "stopRecording s = s \<and> clickStop s = s"
  using assms by (auto simp: stopRecording_def clickStop_def split: option.splits)

text \<open>Stop after the sample run has finished, where a recorder exists and is idle.\<close>

theorem stop_noop_witness:
  "\<not> isRecording (recordingState (run firstSession init)) \<and>
   stopRecording (run firstSession init) = run firstSession init \<and>
   clickStop (run firstSession init) = run firstSession init"
  using stop_noop [of "run firstSession init"] firstSession_idle by blast

text \<open>
  C1 at a browser whose recorder constructor rejects every format. The failed start is
  caught and reported and \<open>isRecording\<close> stays false, but the frame timer started at line 45
  is still running and still referenced; a second failed start adds a second timer and
  overwrites the reference to the first.
\<close>

theorem failed_start_keeps_timer:
  "error (recordingState (run (untilLoaded @ [ClickStart noRecorderBrowser]) init)) =
     Some ''NotSupportedError'' \<and>
   \<not> isRecording (recordingState (run (untilLoaded @ [ClickStart noRecorderBrowser]) init)) \<and>
   recorders (run (untilLoaded @ [ClickStart noRecorderBrowser]) init) = [] \<and>
   timers (run (untilLoaded @ [ClickStart noRecorderBrowser]) init) = [0] \<and>
   drawIntervalRef (run (untilLoaded @ [ClickStart noRecorderBrowser]) init) = Some 0 \<and>
   timers (run (untilLoaded @ [ClickStart noRecorderBrowser, ClickStart noRecorderBrowser]) init) =
     [0, 1] \<and>
   drawIntervalRef
     (run (untilLoaded @ [ClickStart noRecorderBrowser, ClickStart noRecorderBrowser]) init) = Some 1"
  by (simp add: eval_defs)

text \<open>
  C2. For every support predicate, the option handed to the recorder constructor is the
  first of VP9+Opus WebM, VP8+Opus WebM, plain WebM, plain MP4 that the predicate reports
  supported (plain MP4, the last resort, when it reports none). The recorder the widget
  keeps is the one the constructor builds for that option; and if the constructor throws,
  the start attempt fails: the thrown message becomes the error, \<open>isRecording\<close> is as before
  and no recorder has been added. Both hold for a run of the routine that goes through
  without waiting and for the continuation of a run that waited for the audio context.
\<close>

theorem encoding_selection:
  "(find supported priority = Some m \<longrightarrow> select_options supported = m) \<and>
   (find supported priority = None \<longrightarrow> select_options supported = ''video/mp4'') \<and>
   (videoMounted s \<and> getContext2d p \<and> directStream p = Some cs \<and>
    newMediaRecorder p cs (select_options (isTypeSupported p)) = Inl e \<longrightarrow>
      error (recordingState (startRecording p s)) = Some (error_message e) \<and>
      isRecording (recordingState (startRecording p s)) = isRecording (recordingState s) \<and>
      recorders (startRecording p s) = recorders s) \<and>
   (videoMounted s \<and> getContext2d p \<and> directStream p = Some cs \<and>
    newMediaRecorder p cs (select_options (isTypeSupported p)) = Inr mt \<longrightarrow>
      recorderRef (startRecording p s) = Some (length (recorders s)) \<and>
      mimeType (recorders (startRecording p s) ! length (recorders s)) = mt) \<and>
   (newMediaRecorder p (combinedStream captureStream r) (select_options (isTypeSupported p)) = Inl e \<longrightarrow>
      error (recordingState (resumeRecording p r s)) = Some (error_message e) \<and>
      isRecording (recordingState (resumeRecording p r s)) = isRecording (recordingState s) \<and>
      recorders (resumeRecording p r s) = recorders s) \<and>
   (newMediaRecorder p (combinedStream captureStream r) (select_options (isTypeSupported p)) = Inr mt \<longrightarrow>
      recorderRef (resumeRecording p r s) = Some (length (recorders s)) \<and>
      mimeType (recorders (resumeRecording p r s) ! length (recorders s)) = mt)"
proof -
  have thr: "error (recordingState (finishRecording p c x)) = Some (error_message e) \<and>
      isRecording (recordingState (finishRecording p c x)) = isRecording (recordingState x) \<and>
      recorders (finishRecording p c x) = recorders x"
    if "constructed p c = Inl e" for c x
    using finishRecording_constructor_throws [OF that] by (simp add: failWith_def)
  have built: "recorderRef (finishRecording p c x) = Some (length (recorders x)) \<and>
      mimeType (recorders (finishRecording p c x) ! length (recorders x)) = mt"
    if "constructed p c = Inr mt" for c x
    using finishRecording_built [OF that] by simp
  have "error (recordingState (startRecording p s)) = Some (error_message e) \<and>
      isRecording (recordingState (startRecording p s)) = isRecording (recordingState s) \<and>
      recorders (startRecording p s) = recorders s"
    if "videoMounted s" "getContext2d p" "directStream p = Some cs" "constructed p cs = Inl e"
    using thr [OF that(4), of "afterSetup s"] startRecording_direct [OF that(1-3)]
    by (simp add: afterSetup_def)
  moreover have "recorderRef (startRecording p s) = Some (length (recorders s)) \<and>
      mimeType (recorders (startRecording p s) ! length (recorders s)) = mt"
    if "videoMounted s" "getContext2d p" "directStream p = Some cs" "constructed p cs = Inr mt"
    using built [OF that(4), of "afterSetup s"] startRecording_direct [OF that(1-3)]
    by (simp add: afterSetup_def)
  moreover note thr [of "combinedStream captureStream r" s] built [of "combinedStream captureStream r" s]
    select_options_first [of supported m] select_options_none [of supported]
  ultimately show ?thesis
    unfolding constructed_def resumeRecording_def by blast
qed

text \<open>A browser that supports plain WebM only, one whose constructor rejects all, and
  the continuation of a run that waited.\<close>

theorem encoding_selection_witness:
  "find (isTypeSupported webmBrowser) priority = Some ''video/webm'' \<and>
   select_options (isTypeSupported webmBrowser) = ''video/webm'' \<and>
   find (isTypeSupported noRecorderBrowser) priority = None \<and>
   select_options (isTypeSupported noRecorderBrowser) = ''video/mp4'' \<and>
   error (recordingState (startRecording noRecorderBrowser (run untilLoaded init))) =
     Some ''NotSupportedError'' \<and>
   mimeType (recorders (startRecording webmBrowser (run untilLoaded init)) ! 0) = ''video/webm'' \<and>
   mimeType (recorders (resumeRecording suspendedBrowser (Inr [AudioTrack]) (run untilLoaded init)) ! 0) =
     ''video/webm''"
proof -
  let ?s = "run untilLoaded init"
  have f1: "find (isTypeSupported webmBrowser) priority = Some ''video/webm''"
    by (simp add: webmBrowser_def priority_def)
  have f2: "find (isTypeSupported noRecorderBrowser) priority = None"
    by (simp add: noRecorderBrowser_def priority_def)
  have m: "videoMounted ?s" and n: "length (recorders ?s) = 0"
    unfolding untilLoaded_state by (simp_all add: videoMounted_def sampleUrl_def init_def)
  have bad: "getContext2d noRecorderBrowser \<and> directStream noRecorderBrowser = Some [VideoTrack] \<and>
      newMediaRecorder noRecorderBrowser [VideoTrack]
        (select_options (isTypeSupported noRecorderBrowser)) = Inl (Error ''NotSupportedError'')"
    by (simp add: noRecorderBrowser_def directStream_def combinedStream_def captureStream_def)
  have ok: "getContext2d webmBrowser \<and> directStream webmBrowser = Some [VideoTrack, AudioTrack] \<and>
      newMediaRecorder webmBrowser [VideoTrack, AudioTrack]
        (select_options (isTypeSupported webmBrowser)) = Inr ''video/webm''"
    by (simp add: webmBrowser_def select_options_def directStream_def combinedStream_def
        captureStream_def getVideoTracks_def getAudioTracks_def)
  have ok2: "newMediaRecorder suspendedBrowser (combinedStream captureStream (Inr [AudioTrack]))
        (select_options (isTypeSupported suspendedBrowser)) = Inr ''video/webm''"
    by (simp add: suspendedBrowser_def webmBrowser_def select_options_def)
  from encoding_selection [of "isTypeSupported webmBrowser" "''video/webm''" ?s webmBrowser
      "[VideoTrack, AudioTrack]" NonError "''video/webm''" "Inr [AudioTrack]"] f1 m ok n
  have a: "select_options (isTypeSupported webmBrowser) = ''video/webm''"
    "mimeType (recorders (startRecording webmBrowser ?s) ! 0) = ''video/webm''"
    by simp_all
  from encoding_selection [of "isTypeSupported noRecorderBrowser" "''video/mp4''" ?s
      noRecorderBrowser "[VideoTrack]" "Error ''NotSupportedError''" "''video/mp4''" "Inl NonError"]
    f2 m bad
  have b: "select_options (isTypeSupported noRecorderBrowser) = ''video/mp4''"
    "error (recordingState (startRecording noRecorderBrowser ?s)) = Some ''NotSupportedError''"
    by (simp_all add: error_message_def)
  from encoding_selection [of "isTypeSupported webmBrowser" "''video/webm''" ?s suspendedBrowser
      "[VideoTrack]" NonError "''video/webm''" "Inr [AudioTrack]"] ok2 n
  have c: "mimeType (recorders (resumeRecording suspendedBrowser (Inr [AudioTrack]) ?s) ! 0) =
      ''video/webm''"
    by simp
  from f1 f2 a b c show ?thesis by simp
qed

text \<open>
  C3. When the audio-graph construction throws, at once or after the routine has waited
  for the audio context, the start attempt goes on exactly as that of a browser whose
  audio graph delivers no audio track: the thrown value is used nowhere. If the remaining
  steps succeed, the widget is recording, the error field is empty (as it was when the
  continuation began, for a run that waited), and the recorder's stream holds the canvas
  video track only. Whatever fragments the recorder then emits before and after the click
  on Stop, the stop event ends the session with \<open>isRecording\<close> false, the error as before,
  and a result blob whose bytes are those of the non-empty fragments, in order, tagged
  with the recorder's type.
\<close>

theorem audio_failure_swallowed:
  "(audioGraph p = AudioThrows t \<longrightarrow>
      startRecording p s = startRecording (p\<lparr>audioGraph := AudioReady []\<rparr>) s) \<and>
   resumeRecording p (Inl t) s = resumeRecording p (Inr []) s \<and>
   (audioGraph p = AudioThrows t \<and> videoMounted s \<and> getContext2d p \<and>
    newMediaRecorder p [VideoTrack] (select_options (isTypeSupported p)) = Inr mt \<and>
    recorderStart p = None \<longrightarrow>
      isRecording (recordingState (startRecording p s)) \<and>
      error (recordingState (startRecording p s)) = None \<and>
      currentRecorder (startRecording p s) =
        Some \<lparr>rstate = Recording, mimeType = mt, rstream = [VideoTrack], stopQueued = False\<rparr> \<and>
      recordingState
        (run (map (DataAvailable (length (recorders s))) ds @ ClickStop #
              map (DataAvailable (length (recorders s))) ds' @ [StopEvent (length (recorders s))])
           (startRecording p s)) =
        (recordingState s)
          \<lparr>isRecording := False, error := None,
           recordedBlob :=
             Some \<lparr>bytes = concat (map bytes (filter (\<lambda>d. 0 < length (bytes d)) (ds @ ds'))),
                   btype = blob_type (if mt = [] then ''video/webm'' else mt)\<rparr>\<rparr>) \<and>
   (newMediaRecorder p [VideoTrack] (select_options (isTypeSupported p)) = Inr mt \<and>
    recorderStart p = None \<longrightarrow>
      isRecording (recordingState (resumeRecording p (Inl t) s)) \<and>
      error (recordingState (resumeRecording p (Inl t) s)) = error (recordingState s) \<and>
      currentRecorder (resumeRecording p (Inl t) s) =
        Some \<lparr>rstate = Recording, mimeType = mt, rstream = [VideoTrack], stopQueued = False\<rparr> \<and>
      recordingState
        (run (map (DataAvailable (length (recorders s))) ds @ ClickStop #
              map (DataAvailable (length (recorders s))) ds' @ [StopEvent (length (recorders s))])
           (resumeRecording p (Inl t) s)) =
        (recordingState s)
          \<lparr>isRecording := False,
           recordedBlob :=
             Some \<lparr>bytes = concat (map bytes (filter (\<lambda>d. 0 < length (bytes d)) (ds @ ds'))),
                   btype = blob_type (if mt = [] then ''video/webm'' else mt)\<rparr>\<rparr>)"
proof (intro conjI impI)
  assume "audioGraph p = AudioThrows t"
  then show "startRecording p s = startRecording (p\<lparr>audioGraph := AudioReady []\<rparr>) s"
    by (rule audio_failure_same_start)
next
  show "resumeRecording p (Inl t) s = resumeRecording p (Inr []) s"
    by (rule audio_failure_same_resume)
next
  assume h: "audioGraph p = AudioThrows t \<and> videoMounted s \<and> getContext2d p \<and>
    newMediaRecorder p [VideoTrack] (select_options (isTypeSupported p)) = Inr mt \<and>
    recorderStart p = None"
  then have d: "directStream p = Some [VideoTrack]"
    by (simp add: directStream_def combinedStream_def captureStream_def)
  from h have c: "constructed p [VideoTrack] = Inr mt" by (simp add: constructed_def)
  from h d have eq: "startRecording p s = finishRecording p [VideoTrack] (afterSetup s)"
    by (simp add: startRecording_direct)
  from h have r: "recorderStart p = None" by simp
  note v = video_only_session [OF c r, of "afterSetup s" ds ds']
  from h v show "isRecording (recordingState (startRecording p s))"
    by (simp add: eq)
  from v show "error (recordingState (startRecording p s)) = None"
    by (simp add: eq afterSetup_def)
  from h v show "currentRecorder (startRecording p s) =
      Some \<lparr>rstate = Recording, mimeType = mt, rstream = [VideoTrack], stopQueued = False\<rparr>"
    by (simp add: eq)
  from h v show "recordingState
        (run (map (DataAvailable (length (recorders s))) ds @ ClickStop #
              map (DataAvailable (length (recorders s))) ds' @ [StopEvent (length (recorders s))])
           (startRecording p s)) =
        (recordingState s)
          \<lparr>isRecording := False, error := None,
           recordedBlob :=
             Some \<lparr>bytes = concat (map bytes (filter (\<lambda>d. 0 < length (bytes d)) (ds @ ds'))),
                   btype = blob_type (if mt = [] then ''video/webm'' else mt)\<rparr>\<rparr>"
    by (simp add: eq afterSetup_def)
next
  assume h: "newMediaRecorder p [VideoTrack] (select_options (isTypeSupported p)) = Inr mt \<and>
    recorderStart p = None"
  then have c: "constructed p [VideoTrack] = Inr mt" by (simp add: constructed_def)
  have eq: "resumeRecording p (Inl t) s = finishRecording p [VideoTrack] s"
    by (simp add: resumeRecording_def combinedStream_def captureStream_def)
  from h have r: "recorderStart p = None" by simp
  note v = video_only_session [OF c r, of s ds ds']
  from h v show "isRecording (recordingState (resumeRecording p (Inl t) s))"
    by (simp add: eq)
  from h v show "error (recordingState (resumeRecording p (Inl t) s)) = error (recordingState s)"
    by (simp add: eq)
  from h v show "currentRecorder (resumeRecording p (Inl t) s) =
      Some \<lparr>rstate = Recording, mimeType = mt, rstream = [VideoTrack], stopQueued = False\<rparr>"
    by (simp add: eq)
  from h v show "recordingState
        (run (map (DataAvailable (length (recorders s))) ds @ ClickStop #
              map (DataAvailable (length (recorders s))) ds' @ [StopEvent (length (recorders s))])
           (resumeRecording p (Inl t) s)) =
        (recordingState s)
          \<lparr>isRecording := False,
           recordedBlob :=
             Some \<lparr>bytes = concat (map bytes (filter (\<lambda>d. 0 < length (bytes d)) (ds @ ds'))),
                   btype = blob_type (if mt = [] then ''video/webm'' else mt)\<rparr>\<rparr>"
    by (simp add: eq)
qed

text \<open>The sample video on a browser whose audio graph throws, with a fragment before the
  click on Stop and an empty and a non-empty one after it; and the same browser with the
  throw after the wait.\<close>

theorem audio_failure_swallowed_witness:
  "isRecording (recordingState (startRecording silentBrowser (run untilLoaded init))) \<and>
   error (recordingState (startRecording silentBrowser (run untilLoaded init))) = None \<and>
   currentRecorder (startRecording silentBrowser (run untilLoaded init)) =
     Some \<lparr>rstate = Recording, mimeType = ''video/webm'', rstream = [VideoTrack],
           stopQueued = False\<rparr> \<and>
   recordedBlob (recordingState
     (run [DataAvailable 0 sampleFragment, ClickStop,
           DataAvailable 0 \<lparr>bytes = [], btype = ''video/webm''\<rparr>,
           DataAvailable 0 sampleFragment, StopEvent 0]
        (startRecording silentBrowser (run untilLoaded init)))) =
     Some \<lparr>bytes = [26, 69, 26, 69], btype = ''video/webm''\<rparr> \<and>
   recordedBlob (recordingState
     (run [DataAvailable 0 sampleFragment, ClickStop, StopEvent 0]
        (resumeRecording suspendedSilentBrowser (Inl (Error ''InvalidStateError''))
           (run untilLoaded init)))) =
     Some \<lparr>bytes = [26, 69], btype = ''video/webm''\<rparr>"
proof -
  let ?s = "run untilLoaded init"
  let ?e = "\<lparr>bytes = [], btype = ''video/webm''\<rparr>"
  have a: "audioGraph silentBrowser = AudioThrows (Error ''InvalidStateError'')"
    by (simp add: silentBrowser_def)
  have m: "videoMounted ?s" and n: "length (recorders ?s) = 0"
    unfolding untilLoaded_state by (simp_all add: videoMounted_def sampleUrl_def init_def)
  have ok: "getContext2d silentBrowser \<and>
      newMediaRecorder silentBrowser [VideoTrack]
        (select_options (isTypeSupported silentBrowser)) = Inr ''video/webm'' \<and>
      recorderStart silentBrowser = None"
    by (simp add: silentBrowser_def webmBrowser_def select_options_def)
  have ok2: "newMediaRecorder suspendedSilentBrowser [VideoTrack]
        (select_options (isTypeSupported suspendedSilentBrowser)) = Inr ''video/webm'' \<and>
      recorderStart suspendedSilentBrowser = None"
    by (simp add: suspendedSilentBrowser_def webmBrowser_def select_options_def)
  from audio_failure_swallowed [of silentBrowser "Error ''InvalidStateError''" ?s "''video/webm''"
      "[sampleFragment]" "[?e, sampleFragment]"] a m ok
  have "isRecording (recordingState (startRecording silentBrowser ?s)) \<and>
      error (recordingState (startRecording silentBrowser ?s)) = None \<and>
      currentRecorder (startRecording silentBrowser ?s) =
        Some \<lparr>rstate = Recording, mimeType = ''video/webm'', rstream = [VideoTrack],
              stopQueued = False\<rparr> \<and>
      recordingState
        (run (map (DataAvailable (length (recorders ?s))) [sampleFragment] @ ClickStop #
              map (DataAvailable (length (recorders ?s))) [?e, sampleFragment] @
              [StopEvent (length (recorders ?s))])
           (startRecording silentBrowser ?s)) =
        (recordingState ?s)
          \<lparr>isRecording := False, error := None,
           recordedBlob :=
             Some \<lparr>bytes = concat (map bytes (filter (\<lambda>d. 0 < length (bytes d))
                                ([sampleFragment] @ [?e, sampleFragment]))),
                   btype = blob_type (if ''video/webm'' = [] then ''video/webm'' else ''video/webm'')\<rparr>\<rparr>"
    by blast
  then have one: "isRecording (recordingState (startRecording silentBrowser ?s)) \<and>
      error (recordingState (startRecording silentBrowser ?s)) = None \<and>
      currentRecorder (startRecording silentBrowser ?s) =
        Some \<lparr>rstate = Recording, mimeType = ''video/webm'', rstream = [VideoTrack],
              stopQueued = False\<rparr> \<and>
      recordedBlob (recordingState
        (run [DataAvailable 0 sampleFragment, ClickStop, DataAvailable 0 ?e,
              DataAvailable 0 sampleFragment, StopEvent 0] (startRecording silentBrowser ?s))) =
        Some \<lparr>bytes = [26, 69, 26, 69], btype = ''video/webm''\<rparr>"
    unfolding n by (simp add: sampleFragment_def blob_type_webm)
  from audio_failure_swallowed [of suspendedSilentBrowser "Error ''InvalidStateError''" ?s
      "''video/webm''" "[sampleFragment]" "[]"] ok2
  have "recordingState
        (run (map (DataAvailable (length (recorders ?s))) [sampleFragment] @ ClickStop #
              map (DataAvailable (length (recorders ?s))) [] @ [StopEvent (length (recorders ?s))])
           (resumeRecording suspendedSilentBrowser (Inl (Error ''InvalidStateError'')) ?s)) =
        (recordingState ?s)
          \<lparr>isRecording := False,
           recordedBlob :=
             Some \<lparr>bytes = concat (map bytes (filter (\<lambda>d. 0 < length (bytes d))
                                ([sampleFragment] @ []))),
                   btype = blob_type (if ''video/webm'' = [] then ''video/webm'' else ''video/webm'')\<rparr>\<rparr>"
    by blast
  then have two: "recordedBlob (recordingState
        (run [DataAvailable 0 sampleFragment, ClickStop, StopEvent 0]
           (resumeRecording suspendedSilentBrowser (Inl (Error ''InvalidStateError'')) ?s))) =
        Some \<lparr>bytes = [26, 69], btype = ''video/webm''\<rparr>"
    unfolding n by (simp add: sampleFragment_def blob_type_webm)
  from one two show ?thesis by simp
qed

text \<open>
  C4 at the first session of the sample run. When its stop event arrives the result
  player is not mounted (it is rendered only once a result exists, line 295), so the
  handler skips lines 126-130: the blob is stored, but the player mounted by the next
  render has no source, and nothing sets one later. At the end of a second session the
  same handler does set the source.
\<close>

theorem first_result_not_played:
  "recordedVideoRef (run (untilRecording @ [DataAvailable 0 sampleFragment, ClickStop]) init) = None \<and>
   recordedVideoRef
     (onstop (dispatchStop 0 (run (untilRecording @ [DataAvailable 0 sampleFragment, ClickStop]) init))) =
     None \<and>
   recordedBlob (recordingState (run firstSession init)) = Some sampleFragment \<and>
   recordedVideoRef (run firstSession init) = Some None \<and>
   recordedVideoRef (run (secondSession @ [StopEvent 1]) init) = Some (Some sampleFragment)"
  by (simp add: eval_defs)

text \<open>
  C6 at a browser whose audio context is suspended at first. The first click on Start
  leaves the routine waiting at line 61 with \<open>isRecording\<close> still false, so the button is
  enabled and a second click is accepted; when both runs continue, two recorders are
  recording and the widget references the second only. Stop then ends the second; the
  first keeps recording although the widget says it is not recording.
\<close>

theorem double_start_two_sessions:
  "\<not> isRecording (recordingState (run (untilLoaded @ [ClickStart suspendedBrowser]) init)) \<and>
   length (pendingStarts (run (untilLoaded @ [ClickStart suspendedBrowser]) init)) = 1 \<and>
   length (pendingStarts
     (run (untilLoaded @ [ClickStart suspendedBrowser, ClickStart suspendedBrowser]) init)) = 2 \<and>
   activeSessions (run doubleStart init) = 2 \<and>
   recorderRef (run doubleStart init) = Some 1 \<and>
   \<not> isRecording (recordingState (run (doubleStart @ [ClickStop, StopEvent 1]) init)) \<and>
   activeSessions (run (doubleStart @ [ClickStop, StopEvent 1]) init) = 1"
  by (simp add: activeSessions_def eval_defs)

text \<open>
  C8, as the code has it. A start attempt that finds the source media element mounted
  behaves exactly as if the error field had been empty before it: the stored message is
  cleared before any step that can fail, and after a successful start, or when the routine
  waits for the audio context, the field is empty. When the media element is not mounted
  the routine returns at once and changes nothing.
\<close>

theorem start_clears_error:
  "(videoMounted s \<longrightarrow>
      startRecording p s = startRecording p (setRecordingState (\<lambda>prev. prev\<lparr>error := None\<rparr>) s)) \<and>
   (videoMounted s \<and> getContext2d p \<and> directStream p = Some cs \<and>
    newMediaRecorder p cs (select_options (isTypeSupported p)) = Inr mt \<and>
    recorderStart p = None \<longrightarrow> error (recordingState (startRecording p s)) = None) \<and>
   (videoMounted s \<and> getContext2d p \<and> audioGraph p = AudioSuspended r \<longrightarrow>
      error (recordingState (startRecording p s)) = None) \<and>
   (\<not> videoMounted s \<longrightarrow> startRecording p s = s)"
proof -
  have "startRecording p s = startRecording p (setRecordingState (\<lambda>prev. prev\<lparr>error := None\<rparr>) s)"
    if "videoMounted s"
    using that by (simp add: startRecording_def setRecordingState_def videoMounted_def)
  moreover have "error (recordingState (startRecording p s)) = None"
    if "videoMounted s" "getContext2d p" "directStream p = Some cs" "constructed p cs = Inr mt"
      "recorderStart p = None"
    using that by (simp add: startRecording_direct finishRecording_succeeds afterSetup_def)
  moreover have "error (recordingState (startRecording p s)) = None"
    if "videoMounted s" "getContext2d p" "audioGraph p = AudioSuspended r"
    using that by (simp add: startRecording_suspended afterSetup_def)
  ultimately show ?thesis
    by (simp add: startRecording_unmounted constructed_def)
qed

text \<open>A successful start after a failed one, with the video still mounted.\<close>

theorem start_clears_error_witness:
  "videoMounted (run (untilLoaded @ [ClickStart noRecorderBrowser]) init) \<and>
   error (recordingState (run (untilLoaded @ [ClickStart noRecorderBrowser]) init)) =
     Some ''NotSupportedError'' \<and>
   error (recordingState
     (startRecording webmBrowser (run (untilLoaded @ [ClickStart noRecorderBrowser]) init))) = None \<and>
   error (recordingState
     (startRecording suspendedBrowser (run (untilLoaded @ [ClickStart noRecorderBrowser]) init))) = None"
proof -
  let ?s = "run (untilLoaded @ [ClickStart noRecorderBrowser]) init"
  have m: "videoMounted ?s" by (simp add: failedStart_state videoMounted_def sampleUrl_def)
  have c: "getContext2d webmBrowser \<and> directStream webmBrowser = Some [VideoTrack, AudioTrack] \<and>
    newMediaRecorder webmBrowser [VideoTrack, AudioTrack]
      (select_options (isTypeSupported webmBrowser)) = Inr ''video/webm'' \<and>
    recorderStart webmBrowser = None"
    by (simp add: webmBrowser_def select_options_def directStream_def combinedStream_def
        captureStream_def getVideoTracks_def getAudioTracks_def)
  have d: "getContext2d suspendedBrowser \<and>
    audioGraph suspendedBrowser = AudioSuspended (Inr [AudioTrack])"
    by (simp add: suspendedBrowser_def webmBrowser_def)
  from start_clears_error [of ?s webmBrowser "[VideoTrack, AudioTrack]" "''video/webm''"
      "Inr [AudioTrack]"] m c
  have "error (recordingState (startRecording webmBrowser ?s)) = None" by blast
  moreover from start_clears_error [of ?s suspendedBrowser "[VideoTrack]" "''video/webm''"
      "Inr [AudioTrack]"] m d
  have "error (recordingState (startRecording suspendedBrowser ?s)) = None" by blast
  ultimately show ?thesis using m by (simp add: failedStart_state)
qed

text \<open>
  C8 as stated fails: after a failed start has left a message, the URL field is emptied
  (the media element is unmounted, the loaded flag stays set) and Start is clicked again;
  the routine returns at the element check and the old message is still there.
\<close>

theorem start_without_video_keeps_error_counterexample:
  "error (recordingState (run (untilLoaded @ [ClickStart noRecorderBrowser, ChangeUrl []]) init)) =
     Some ''NotSupportedError'' \<and>
   error (recordingState
     (run (untilLoaded @ [ClickStart noRecorderBrowser, ChangeUrl [], ClickStart webmBrowser]) init)) =
     Some ''NotSupportedError''"
  by (simp add: eval_defs)




text \<open>
  C10. In every state the widget reaches, every fragment in the fragment list has size
  greater than zero: the data handler drops a fragment of size zero and appends any
  other, and the blob the stop handler builds is the concatenation of those non-empty
  fragments.
\<close>

theorem fragments_nonempty:
  "(\<forall>c \<in> set (recordedChunksRef (run evs init)). 0 < blob_size c) \<and>
   (blob_size d = 0 \<longrightarrow> ondataavailable d s = s) \<and>
   (0 < blob_size d \<longrightarrow> recordedChunksRef (ondataavailable d s) = recordedChunksRef s @ [d]) \<and>
   (\<exists>b. recordedBlob (recordingState (onstop (run evs init))) = Some b \<and>
        bytes b = concat (map bytes (recordedChunksRef (run evs init))) \<and>
        (\<forall>c \<in> set (recordedChunksRef (run evs init)). bytes c \<noteq> []))"
proof -
  from chunksInv_run [OF chunksInv_init, of evs]
  have inv: "\<forall>c \<in> set (recordedChunksRef (run evs init)). 0 < blob_size c"
    by (simp add: chunksInv_def)
  then have ne: "\<forall>c \<in> set (recordedChunksRef (run evs init)). bytes c \<noteq> []"
    by (simp add: blob_size_def)
  have "recordedBlob (recordingState (onstop (run evs init))) = Some (stopBlob (run evs init))"
    by (simp add: onstop_unfold)
  moreover have "bytes (stopBlob (run evs init)) =
      concat (map bytes (recordedChunksRef (run evs init)))"
    by (simp add: stopBlob_def newBlob_def)
  ultimately show ?thesis using inv ne by (simp add: ondataavailable_def)
qed

text \<open>An empty and a non-empty fragment while the sample run is recording.\<close>

theorem fragments_nonempty_witness:
  "ondataavailable \<lparr>bytes = [], btype = ''video/webm''\<rparr> (run untilRecording init) =
     run untilRecording init \<and>
   recordedChunksRef
     (run (untilRecording @ [DataAvailable 0 \<lparr>bytes = [], btype = ''video/webm''\<rparr>,
                             DataAvailable 0 sampleFragment]) init) = [sampleFragment] \<and>
   0 < blob_size sampleFragment"
proof -
  let ?empty = "\<lparr>bytes = [], btype = ''video/webm''\<rparr>"
  let ?evs = "untilRecording @ [DataAvailable 0 ?empty, DataAvailable 0 sampleFragment]"
  have z: "blob_size ?empty = 0" by (simp add: blob_size_def)
  have c: "recordedChunksRef (run ?evs init) = [sampleFragment]"
    by (simp add: eval_defs)
  from fragments_nonempty [of ?evs ?empty "run untilRecording init"] z
  have "ondataavailable ?empty (run untilRecording init) = run untilRecording init"
    and "\<forall>c \<in> set (recordedChunksRef (run ?evs init)). 0 < blob_size c"
    by blast+
  with c show ?thesis by simp
qed

end
